theory Spec2Isabelle
  imports Main
begin

section \<open>Data model of the transaction context (model-server-client.ts)\<close>

text \<open>
  Payloads are opaque to the transaction core. A JSON Patch operation and a command are
  kept as small tagged values; a command carries the type tag that the command provider
  registry dispatches on. A \<open>patchModel\<close> member of a \<open>ModelUpdateResult\<close> is a function
  value in the source; only its presence and identity matter, so it is a handle.
\<close>

datatype operation = Operation (op_name: string) (op_path: string) (op_value: string)

datatype command = Command (ctype: string) (cdata: string)

type_synonym patch_model = nat

type_synonym uri = string

text \<open>
  \<open>ModelUpdateResult\<close> is \<open>{ success: boolean, patch?: Operation[], patchModel?: ... }\<close>:
  the two optional members are options.
\<close>

record model_update_result =
  success :: bool
  patch :: "operation list option"
  patchModel :: "patch_model option"

text \<open>The argument of \<open>applyPatch\<close>: \<open>Operation | Operation[]\<close>, or a nil value.\<close>

datatype patch_arg = PNil | POne operation | PMany "operation list"

datatype error = Reason string | TypeError

text \<open>
  A promise either resolves, rejects, or has not settled: \<open>Pending\<close> is an await on the
  transaction's uuid promise while the uuid has not arrived, \<open>OutOfFuel\<close> is a run cut
  off by the step bound of the recursive functions below (command providers and triggers
  may recurse without end).
\<close>

datatype 'a outcome = Resolved 'a | Rejected error | Pending | OutOfFuel

text \<open>
  The body of an \<open>execute\<close> message (\<open>ExecuteMessageBody\<close>) and the messages the context
  puts on the transaction socket, \<open>{ type, modeluri, data }\<close>.
\<close>

datatype execute_body = ExecuteCommand command | ExecutePatch patch_arg

datatype message_type = execute_t | close_t | roll_back_t | incrementalUpdate_t | success_t

datatype message_data = EmptyData | Body execute_body | ErrorData error

datatype message = Message (mtype: message_type) (muri: uri) (mdata: message_data)

text \<open>
  A transaction function is plug-in code that receives the context as an \<open>Executor\<close>
  and returns a success flag. It is modelled by the tree of its interaction with the
  executor: it returns, throws, or awaits \<open>execute\<close> or \<open>applyPatch\<close> and continues
  according to how that promise settled.
\<close>

datatype transaction =
    Return bool
  | Throw error
  | AwaitExecute uri command "error + model_update_result \<Rightarrow> transaction"
  | AwaitApplyPatch patch_arg "error + model_update_result \<Rightarrow> transaction"

text \<open>What the command provider registry and the trigger provider registry hand out.\<close>

datatype provided = ProvidedCommand command | ProvidedPatch patch_arg | ProvidedFunction transaction

datatype triggers = NoTriggers | TriggerPatch "operation list" | TriggerFunction transaction

text \<open>
  What the context gets from a collaborator whose promise it awaits: how the promise
  settles, and whether the socket closed while the context was waiting (the \<open>onclose\<close>
  handler ran before the context went on).
\<close>

datatype 'a answer = Answer (settles: "error + 'a") (closes: bool)

text \<open>
  The collaborators of a context: the two registries (their asynchronous calls may
  reject) and the Upstream server, which answers the \<open>execute\<close> message sent last, given
  everything sent so far, with an update result or a failure of the reply promise.
\<close>

record env =
  hasProvider :: "string \<Rightarrow> bool"
  getCommands :: "uri \<Rightarrow> command \<Rightarrow> provided answer"
  getTriggers :: "uri \<Rightarrow> operation list \<Rightarrow> triggers answer"
  upstream :: "message list \<Rightarrow> model_update_result answer"

datatype ready_state = CONNECTING | OPEN | CLOSING | CLOSED

datatype uuid_promise = UuidPending | UuidResolved string | UuidRejected error

text \<open>
  The state of a \<open>DefaultTransactionContext\<close>. \<open>socket\<close> is \<open>None\<close> while the member is
  undefined. \<open>nestedContexts\<close> is the stack of aggregated results, its head the deepest
  (current) context, that is the last element of the source's array. \<open>sent\<close> is the
  sequence of messages passed to \<open>socket.send\<close>, oldest first.
\<close>

record transaction_context =
  socket :: "ready_state option"
  nestedContexts :: "model_update_result list"
  uuid :: uuid_promise
  modelURI :: uri
  sent :: "message list"

definition transactionClosed :: model_update_result where
  "transactionClosed = \<lparr>success = False, patch = None, patchModel = None\<rparr>"

definition socketClosedError :: error where
  "socketClosedError = Reason ''Socket is closed.''"

definition commandFailedError :: error where
  "commandFailedError = Reason ''Command execution failed.''"

definition isOpen :: "transaction_context \<Rightarrow> bool" where
  "isOpen s = (socket s = Some OPEN)"

text \<open>
  The \<open>onclose\<close> handler of the socket, as far as the context goes (the close call-back
  belongs to the client below): the socket member is cleared.
\<close>

definition onclose :: "transaction_context \<Rightarrow> transaction_context" where
  "onclose s = s\<lparr>socket := None\<rparr>"

text \<open>An await of a collaborator: the settled promise, and the context after the wait.\<close>

definition awaited :: "'a answer \<Rightarrow> transaction_context \<Rightarrow> (error + 'a) \<times> transaction_context" where
  "awaited a s = (settles a, if closes a then onclose s else s)"

subsection \<open>Merging update results\<close>

text \<open>
  \<open>mergeModelUpdateResult(dst, src?)\<close> mutates \<open>dst\<close>; the model returns the new \<open>dst\<close>.
  Everything happens under the guard \<open>src?.patch && src.patch.length\<close>.
\<close>

definition mergeModelUpdateResult ::
  "model_update_result \<Rightarrow> model_update_result option \<Rightarrow> model_update_result" where
  "mergeModelUpdateResult dst src =
     (case src of
        None \<Rightarrow> dst
      | Some r \<Rightarrow>
          (case patch r of
             None \<Rightarrow> dst
           | Some ops \<Rightarrow>
               if ops = [] then dst
               else
                 let dst1 = dst\<lparr>success := success dst \<and> success r\<rparr>;
                     dst2 = dst1\<lparr>patch := Some ((case patch dst1 of None \<Rightarrow> [] | Some p \<Rightarrow> p) @ ops)\<rparr>
                 in if success dst2 \<and> patchModel r \<noteq> None
                    then dst2\<lparr>patchModel := patchModel r\<rparr>
                    else dst2))"

text \<open>The operations of a result, an absent patch read as no operations.\<close>

definition patchOps :: "model_update_result \<Rightarrow> operation list" where
  "patchOps r = (case patch r of None \<Rightarrow> [] | Some p \<Rightarrow> p)"

subsection \<open>The stack of nested contexts\<close>

text \<open>
  Modelled from the spec: \<open>MessageDataMapper.patchModel\<close> belongs to the client library
  and is not part of the sources; on the message \<open>{ type: success, data: { patch: [] } }\<close>
  that \<open>pushNestedContext\<close> builds it yields the empty aggregate
  \<open>{ success: true, patch: [] }\<close>.
\<close>

definition emptyUpdateResult :: model_update_result where
  "emptyUpdateResult = \<lparr>success = True, patch = Some [], patchModel = None\<rparr>"

definition pushNestedContext :: "transaction_context \<Rightarrow> transaction_context" where
  "pushNestedContext s = s\<lparr>nestedContexts := emptyUpdateResult # nestedContexts s\<rparr>"

definition peekNestedContext :: "transaction_context \<Rightarrow> model_update_result option" where
  "peekNestedContext s = (case nestedContexts s of [] \<Rightarrow> None | r # _ \<Rightarrow> Some r)"

text \<open>
  \<open>popNestedContext\<close> destructures the popped element, which throws a \<open>TypeError\<close> on an
  empty stack; otherwise the popped aggregate is merged into the context below, if any.
\<close>

definition popNestedContext ::
  "transaction_context \<Rightarrow> error + model_update_result \<times> transaction_context" where
  "popNestedContext s =
     (case nestedContexts s of
        [] \<Rightarrow> Inl TypeError
      | result # rest \<Rightarrow>
          (case rest of
             [] \<Rightarrow> Inr (result, s\<lparr>nestedContexts := []\<rparr>)
           | currentContext # below \<Rightarrow>
               Inr (result,
                    s\<lparr>nestedContexts := mergeModelUpdateResult currentContext (Some result) # below\<rparr>)))"

subsection \<open>Sending on the socket\<close>

definition message :: "transaction_context \<Rightarrow> message_type \<Rightarrow> message_data \<Rightarrow> message" where
  "message s t d = Message t (modelURI s) d"

text \<open>
  \<open>this.socket.send(...)\<close>: a member access on an undefined socket throws; a socket that
  is not open puts nothing on the wire. The sends of \<open>rollback\<close> and
  \<open>sendExecuteMessage\<close> follow an \<open>isOpen\<close> check at once; the \<open>close\<close> of \<open>commit\<close>
  follows the check made before the trigger loop, during which the socket may close.
\<close>

definition socketSend :: "transaction_context \<Rightarrow> message \<Rightarrow> error + transaction_context" where
  "socketSend s m =
     (case socket s of
        None \<Rightarrow> Inl TypeError
      | Some st \<Rightarrow>
          if st = OPEN then Inr (s\<lparr>sent := sent s @ [m]\<rparr>)
          else Inl (Reason ''WebSocket is not open''))"

definition rollback ::
  "transaction_context \<Rightarrow> error \<Rightarrow> model_update_result outcome \<times> transaction_context" where
  "rollback s err =
     (if isOpen s then
        (case socketSend s (message s roll_back_t (ErrorData err)) of
           Inl e \<Rightarrow> (Rejected e, s)
         | Inr s' \<Rightarrow> (Resolved transactionClosed, s'))
      else (Resolved transactionClosed, s))"

text \<open>
  \<open>autoRollback\<close> attaches a handler to a promise: on rejection it awaits \<open>rollback\<close> and
  throws the reason again. A promise that does not settle never runs the handler.
\<close>

definition autoRollback ::
  "'a outcome \<times> transaction_context \<Rightarrow> 'a outcome \<times> transaction_context" where
  "autoRollback editResult =
     (case editResult of
        (Rejected reason, s) \<Rightarrow>
          (case rollback s reason of
             (Resolved _, s') \<Rightarrow> (Rejected reason, s')
           | (Rejected e, s') \<Rightarrow> (Rejected e, s')
           | (Pending, s') \<Rightarrow> (Pending, s')
           | (OutOfFuel, s') \<Rightarrow> (OutOfFuel, s'))
      | _ \<Rightarrow> editResult)"

text \<open>
  \<open>sendExecuteMessage\<close>: the closed-socket check, the await of the uuid, the current
  aggregate taken from the top of the stack (destructuring an undefined top throws), the
  send, and the reply merged into that aggregate.

  Modelled from the spec: \<open>WebSocketMessageAcceptor.promise\<close> (web-socket-utils.ts, not
  part of the sources) settles with the one reply to the message, already mapped to a
  \<open>ModelUpdateResult\<close>, or rejects on a wire error; \<open>upstream env\<close> gives that reply,
  and tells whether the socket closed before it came.
\<close>

definition sendExecuteMessage ::
  "env \<Rightarrow> transaction_context \<Rightarrow> execute_body \<Rightarrow> model_update_result outcome \<times> transaction_context" where
  "sendExecuteMessage env s body =
     (if \<not> isOpen s then (Rejected socketClosedError, s)
      else
        (case uuid s of
           UuidPending \<Rightarrow> (Pending, s)
         | UuidRejected e \<Rightarrow> (Rejected e, s)
         | UuidResolved _ \<Rightarrow>
             (case peekNestedContext s of
                None \<Rightarrow> (Rejected TypeError, s)
              | Some current \<Rightarrow>
                  (case socketSend s (message s execute_t (Body body)) of
                     Inl e \<Rightarrow> (Rejected e, s)
                   | Inr s1 \<Rightarrow>
                       (case awaited (upstream env (sent s1)) s1 of
                          (Inl e, s2) \<Rightarrow> (Rejected e, s2)
                        | (Inr modelUpdateResult, s2) \<Rightarrow>
                            (Resolved modelUpdateResult,
                             s2\<lparr>nestedContexts :=
                                  mergeModelUpdateResult current (Some modelUpdateResult)
                                    # tl (nestedContexts s2)\<rparr>))))))"

definition sendPatch ::
  "env \<Rightarrow> transaction_context \<Rightarrow> patch_arg \<Rightarrow> model_update_result outcome \<times> transaction_context" where
  "sendPatch env s p = sendExecuteMessage env s (ExecutePatch p)"

definition sendCommand ::
  "env \<Rightarrow> transaction_context \<Rightarrow> command \<Rightarrow> model_update_result outcome \<times> transaction_context" where
  "sendCommand env s c = sendExecuteMessage env s (ExecuteCommand c)"

text \<open>\<open>!patch || (Array.isArray(patch) && patch.length === 0)\<close>\<close>

definition emptyPatchArg :: "patch_arg \<Rightarrow> bool" where
  "emptyPatchArg p = (case p of PNil \<Rightarrow> True | POne _ \<Rightarrow> False | PMany ops \<Rightarrow> ops = [])"

definition applyPatch ::
  "env \<Rightarrow> transaction_context \<Rightarrow> patch_arg \<Rightarrow> model_update_result outcome \<times> transaction_context" where
  "applyPatch env s p =
     (if \<not> isOpen s then (Rejected socketClosedError, s)
      else if emptyPatchArg p then (Resolved \<lparr>success = False, patch = None, patchModel = None\<rparr>, s)
      else autoRollback (sendPatch env s p))"

subsection \<open>Command execution\<close>

text \<open>
  \<open>execute\<close>, \<open>doExecute\<close> and the call of a transaction function are mutually
  recursive: a provided transaction function executes further commands. The first
  argument bounds the number of awaits of the executor that a transaction function and
  everything nested in it may chain.
\<close>

fun execute ::
    "nat \<Rightarrow> env \<Rightarrow> transaction_context \<Rightarrow> uri \<Rightarrow> command
      \<Rightarrow> model_update_result outcome \<times> transaction_context"
  and doExecute ::
    "nat \<Rightarrow> env \<Rightarrow> transaction_context \<Rightarrow> uri \<Rightarrow> command
      \<Rightarrow> model_update_result outcome \<times> transaction_context"
  and callTransaction ::
    "nat \<Rightarrow> env \<Rightarrow> transaction_context \<Rightarrow> transaction \<Rightarrow> bool outcome \<times> transaction_context"
where
  "execute n env s modelUri command =
     (if \<not> isOpen s then (Rejected socketClosedError, s)
      else autoRollback (doExecute n env s modelUri command))"
| "doExecute n env s modelUri command =
     (if \<not> hasProvider env (ctype command) then sendCommand env s command
      else
        (case awaited (getCommands env modelUri command) s of
           (Inl e, s0) \<Rightarrow> (Rejected e, s0)
         | (Inr (ProvidedFunction f), s0) \<Rightarrow>
             (case callTransaction n env (pushNestedContext s0) f of
                (Resolved ok, s1) \<Rightarrow>
                  (case popNestedContext s1 of
                     Inl e \<Rightarrow> (Rejected e, s1)
                   | Inr (result, s2) \<Rightarrow>
                       if \<not> ok then (Rejected commandFailedError, s2)
                       else (Resolved result, s2))
              | (Rejected e, s1) \<Rightarrow> (Rejected e, s1)
              | (Pending, s1) \<Rightarrow> (Pending, s1)
              | (OutOfFuel, s1) \<Rightarrow> (OutOfFuel, s1))
         | (Inr (ProvidedCommand c), s0) \<Rightarrow> sendCommand env s0 c
         | (Inr (ProvidedPatch p), s0) \<Rightarrow> sendPatch env s0 p))"
| "callTransaction n env s (Return b) = (Resolved b, s)"
| "callTransaction n env s (Throw e) = (Rejected e, s)"
| "callTransaction 0 env s (AwaitExecute u c k) = (OutOfFuel, s)"
| "callTransaction (Suc n) env s (AwaitExecute u c k) =
     (case execute n env s u c of
        (Resolved r, s1) \<Rightarrow> callTransaction n env s1 (k (Inr r))
      | (Rejected e, s1) \<Rightarrow> callTransaction n env s1 (k (Inl e))
      | (Pending, s1) \<Rightarrow> (Pending, s1)
      | (OutOfFuel, s1) \<Rightarrow> (OutOfFuel, s1))"
| "callTransaction 0 env s (AwaitApplyPatch p k) = (OutOfFuel, s)"
| "callTransaction (Suc n) env s (AwaitApplyPatch p k) =
     (case applyPatch env s p of
        (Resolved r, s1) \<Rightarrow> callTransaction n env s1 (k (Inr r))
      | (Rejected e, s1) \<Rightarrow> callTransaction n env s1 (k (Inl e))
      | (Pending, s1) \<Rightarrow> (Pending, s1)
      | (OutOfFuel, s1) \<Rightarrow> (OutOfFuel, s1))"

text \<open>\<open>edit\<close> dispatches on \<open>isModelServerCommand\<close>.\<close>

datatype patch_or_command = ACommand command | APatch patch_arg

definition edit ::
  "nat \<Rightarrow> env \<Rightarrow> transaction_context \<Rightarrow> patch_or_command
    \<Rightarrow> model_update_result outcome \<times> transaction_context" where
  "edit n env s patchOrCommand =
     (case patchOrCommand of
        ACommand c \<Rightarrow> execute n env s (modelURI s) c
      | APatch p \<Rightarrow> applyPatch env s p)"

subsection \<open>Commit and triggers\<close>

text \<open>
  The \<open>finally\<close> block of \<open>performTriggers\<close>: it pops the nested context whether the
  \<open>try\<close> block resolved or threw, and an exception of the \<open>try\<close> block goes on after it.
\<close>

definition finallyPop ::
  "'a outcome \<times> transaction_context \<Rightarrow> model_update_result outcome \<times> transaction_context" where
  "finallyPop r =
     (case r of
        (Resolved _, s1) \<Rightarrow>
          (case popNestedContext s1 of
             Inl e \<Rightarrow> (Rejected e, s1)
           | Inr (result, s2) \<Rightarrow> (Resolved result, s2))
      | (Rejected e, s1) \<Rightarrow>
          (case popNestedContext s1 of
             Inl e' \<Rightarrow> (Rejected e', s1)
           | Inr (result, s2) \<Rightarrow> (Rejected e, s2))
      | (Pending, s1) \<Rightarrow> (Pending, s1)
      | (OutOfFuel, s1) \<Rightarrow> (OutOfFuel, s1))"

text \<open>\<open>triggers && (typeof triggers === 'function' || triggers.length > 0)\<close>\<close>

definition hasTriggers :: "triggers \<Rightarrow> bool" where
  "hasTriggers t = (case t of NoTriggers \<Rightarrow> False | TriggerPatch ops \<Rightarrow> ops \<noteq> [] | TriggerFunction _ \<Rightarrow> True)"

definition performTriggers ::
  "nat \<Rightarrow> env \<Rightarrow> transaction_context \<Rightarrow> triggers
    \<Rightarrow> model_update_result outcome \<times> transaction_context" where
  "performTriggers n env s t =
     (case t of
        TriggerFunction f \<Rightarrow> finallyPop (callTransaction n env (pushNestedContext s) f)
      | TriggerPatch ops \<Rightarrow> finallyPop (applyPatch env (pushNestedContext s) (PMany ops))
      | NoTriggers \<Rightarrow> finallyPop (applyPatch env (pushNestedContext s) PNil))"

text \<open>The promise of a registry call as an outcome, before any handler is attached.\<close>

definition settled :: "'a answer \<Rightarrow> transaction_context \<Rightarrow> 'a outcome \<times> transaction_context" where
  "settled a s =
     (case awaited a s of
        (Inl e, s') \<Rightarrow> (Rejected e, s')
      | (Inr v, s') \<Rightarrow> (Resolved v, s'))"

text \<open>
  The \<open>while\<close> loop of \<open>commit\<close>, with \<open>updateResult\<close> and \<open>modelDelta\<close> as arguments;
  \<open>None\<close> is an undefined \<open>modelDelta\<close>. One unit of the bound is used per iteration.
\<close>

fun triggerLoop ::
  "nat \<Rightarrow> env \<Rightarrow> transaction_context \<Rightarrow> model_update_result \<Rightarrow> operation list option
    \<Rightarrow> model_update_result outcome \<times> transaction_context" where
  "triggerLoop n env s updateResult None = (Resolved updateResult, s)"
| "triggerLoop 0 env s updateResult (Some modelDelta) =
     (if modelDelta = [] then (Resolved updateResult, s) else (OutOfFuel, s))"
| "triggerLoop (Suc n) env s updateResult (Some modelDelta) =
     (if modelDelta = [] then (Resolved updateResult, s)
      else
        (case autoRollback (settled (getTriggers env (modelURI s) modelDelta) s) of
           (Resolved t, s1) \<Rightarrow>
             if \<not> hasTriggers t then (Resolved updateResult, s1)
             else
               (case performTriggers n env s1 t of
                  (Resolved triggerResult, s2) \<Rightarrow>
                    triggerLoop n env s2
                      (mergeModelUpdateResult updateResult (Some triggerResult))
                      (patch triggerResult)
                | (Rejected e, s2) \<Rightarrow> (Rejected e, s2)
                | (Pending, s2) \<Rightarrow> (Pending, s2)
                | (OutOfFuel, s2) \<Rightarrow> (OutOfFuel, s2))
         | (Rejected e, s1) \<Rightarrow> (Rejected e, s1)
         | (Pending, s1) \<Rightarrow> (Pending, s1)
         | (OutOfFuel, s1) \<Rightarrow> (OutOfFuel, s1)))"

definition commit ::
  "nat \<Rightarrow> env \<Rightarrow> transaction_context \<Rightarrow> model_update_result outcome \<times> transaction_context" where
  "commit n env s =
     (case popNestedContext s of
        Inl e \<Rightarrow> (Rejected e, s)
      | Inr (updateResult, s0) \<Rightarrow>
          if \<not> isOpen s0 then (Resolved transactionClosed, s0)
          else
            (case triggerLoop n env s0 updateResult (patch updateResult) of
               (Resolved u, s1) \<Rightarrow>
                 (case socketSend s1 (message s1 close_t EmptyData) of
                    Inl e \<Rightarrow> (Rejected e, s1)
                  | Inr s2 \<Rightarrow> (Resolved u, s2))
             | (Rejected e, s1) \<Rightarrow> (Rejected e, s1)
             | (Pending, s1) \<Rightarrow> (Pending, s1)
             | (OutOfFuel, s1) \<Rightarrow> (OutOfFuel, s1)))"

subsection \<open>Opening, child transactions and socket events\<close>

text \<open>
  A context as its constructor leaves it, \<open>open\<close> (which pushes the root context; the
  socket member is set by the \<open>onopen\<close> handler), the handlers for the socket opening
  and for the first textual message (the uuid), and the child proxy of
  \<open>openTransaction\<close>, whose \<open>commit\<close> is \<open>popNestedContext\<close>.
\<close>

definition newContext :: "uri \<Rightarrow> transaction_context" where
  "newContext u = \<lparr>socket = None, nestedContexts = [], uuid = UuidPending, modelURI = u, sent = []\<rparr>"

definition openContext :: "transaction_context \<Rightarrow> transaction_context" where
  "openContext s = pushNestedContext s"

definition onopen :: "transaction_context \<Rightarrow> transaction_context" where
  "onopen s = s\<lparr>socket := Some OPEN\<rparr>"

definition onuuid :: "string \<Rightarrow> transaction_context \<Rightarrow> transaction_context" where
  "onuuid u s = (case uuid s of UuidPending \<Rightarrow> s\<lparr>uuid := UuidResolved u\<rparr> | _ \<Rightarrow> s)"

definition openChildTransaction :: "transaction_context \<Rightarrow> transaction_context" where
  "openChildTransaction s = pushNestedContext s"

definition childCommit ::
  "transaction_context \<Rightarrow> error + model_update_result \<times> transaction_context" where
  "childCommit s = popNestedContext s"

section \<open>The transaction manager (InternalModelServerClient)\<close>

text \<open>
  Contexts are objects compared by identity (\<open>=== tc\<close>), so the client keeps them in a
  store under references; \<open>allocated\<close> counts the contexts constructed so far and is
  the reference of the next one. \<open>transactions\<close> is the \<open>Map\<close> from the string of a
  model URI to the root context open on it.
\<close>

type_synonym context_ref = nat

record client =
  transactions :: "string \<rightharpoonup> context_ref"
  store :: "context_ref \<Rightarrow> transaction_context"
  allocated :: nat

text \<open>
  \<open>openTransaction\<close> runs in two steps, with the POST to Upstream awaited in between, so
  that other calls may run between the two. The URI library is not part of the sources:
  a URI is kept as its string and \<open>modelUri.normalize()\<close>, which normalises the URI
  object in place and returns it, is the parameter \<open>normalizeUri\<close>. After it the one URI
  object (now normalised) is what the new context stores as its \<open>modelURI\<close> and what
  the close call-back captures.

  The first step tests \<open>transactions.has(uriKey)\<close>: it either delegates to the
  registered context, whose \<open>openTransaction\<close> pushes a nested context and returns a
  child proxy at once, or issues the POST.
\<close>

datatype open_step = Delegated context_ref | Posting string

definition beginOpenTransaction ::
  "(uri \<Rightarrow> uri) \<Rightarrow> client \<Rightarrow> uri \<Rightarrow> open_step \<times> client" where
  "beginOpenTransaction normalizeUri cl modelUri =
     (let uriKey = normalizeUri modelUri in
      case transactions cl uriKey of
        Some tc \<Rightarrow> (Delegated tc, cl\<lparr>store := (store cl)(tc := openChildTransaction (store cl tc))\<rparr>)
      | None \<Rightarrow> (Posting uriKey, cl))"

text \<open>
  The second step is the \<open>then\<close> handler of the POST, run when the response arrives: a
  rejected POST rejects the call; otherwise a context is constructed, registered with
  \<open>transactions.set(uriKey, result)\<close> and opened. It gives the reference of the new
  root context.
\<close>

definition completeOpenTransaction ::
  "client \<Rightarrow> string \<Rightarrow> error + string \<Rightarrow> (error + context_ref) \<times> client" where
  "completeOpenTransaction cl uriKey response =
     (case response of
        Inl e \<Rightarrow> (Inl e, cl)
      | Inr transactionURI \<Rightarrow>
          (let result = allocated cl in
           (Inr result,
            cl\<lparr>transactions := (transactions cl)(uriKey \<mapsto> result),
               store := (store cl)(result := openContext (newContext uriKey)),
               allocated := Suc result\<rparr>)))"

definition closeTransaction :: "client \<Rightarrow> string \<Rightarrow> context_ref \<Rightarrow> client" where
  "closeTransaction cl modeluri tc =
     (if transactions cl modeluri = Some tc
      then cl\<lparr>transactions := (transactions cl)(modeluri := None)\<rparr>
      else cl)"

text \<open>
  The \<open>onclose\<close> handler of a context's socket: the close call-back installed by
  \<open>openTransaction\<close>, then the socket member is cleared.
\<close>

definition socketClosed :: "client \<Rightarrow> context_ref \<Rightarrow> client" where
  "socketClosed cl tc =
     (let cl1 = closeTransaction cl (modelURI (store cl tc)) tc
      in cl1\<lparr>store := (store cl1)(tc := onclose (store cl1 tc))\<rparr>)"

definition newClient :: client where
  "newClient = \<lparr>transactions = Map.empty, store = (\<lambda>_. newContext []), allocated = 0\<rparr>"

section \<open>The gateway (server.ts)\<close>

text \<open>
  A path is the string of bytes that encodes the JavaScript string in UTF-8:
  concatenation, equality, the removal of trailing slashes and the ASCII characters that
  the regular expressions name read the same on the bytes. The routers that the route
  factory collected: the mount route, the stack of layers and the routing options. A
  layer is kept as the path of its route, \<open>None\<close> for a layer without a route (a
  middleware).
\<close>

definition STANDARD_ROUTES :: "string set" where
  "STANDARD_ROUTES =
     {''/models'', ''/modelelement'', ''/modeluris'', ''/server/ping'', ''/server/configure'',
      ''/subscribe'', ''/close'', ''/save'', ''/saveall'', ''/undo'', ''/redo'', ''/transaction'',
      ''/validation'', ''/validation/constraints'', ''/typeschema'', ''/uischema''}"

record routing_options =
  routerId :: "string option"
  forwardToUpstream :: "bool option"

record router_entry =
  route :: string
  stack :: "string option list"
  options :: "routing_options option"

text \<open>\<open>r.options?.forwardToUpstream\<close>\<close>

definition forwardToUpstreamOf :: "router_entry \<Rightarrow> bool option" where
  "forwardToUpstreamOf r = (case options r of None \<Rightarrow> None | Some opts \<Rightarrow> forwardToUpstream opts)"

text \<open>\<open>handledRoute.replace(/\/+$/, '')\<close> removes the whole run of slashes at the end.\<close>

definition stripTrailingSlashes :: "string \<Rightarrow> string" where
  "stripTrailingSlashes p = rev (dropWhile (\<lambda>c. c = CHR ''/'') (rev p))"

fun stripPrefix :: "string \<Rightarrow> string \<Rightarrow> string option" where
  "stripPrefix [] s = Some s"
| "stripPrefix (p # ps) [] = None"
| "stripPrefix (p # ps) (c # cs) = (if p = c then stripPrefix ps cs else None)"

definition isVersionChar :: "char \<Rightarrow> bool" where
  "isVersionChar c = (c \<in> set ''0123456789.'')"

text \<open>
  The \<open>.\<close> of a regular expression matches every character but the line terminators:
  LF, CR, and U+2028 and U+2029, whose encodings are the bytes E2 80 A8 and E2 80 A9.
  \<open>untilLineTerminator\<close> is what \<open>.*\<close> matches at the start of a string.
\<close>

definition startsLineTerminator :: "string \<Rightarrow> bool" where
  "startsLineTerminator s =
     (take 1 s = [CHR 0x0A] \<or> take 1 s = [CHR 0x0D]
      \<or> take 3 s = [CHR 0xE2, CHR 0x80, CHR 0xA8] \<or> take 3 s = [CHR 0xE2, CHR 0x80, CHR 0xA9])"

fun untilLineTerminator :: "string \<Rightarrow> string" where
  "untilLineTerminator [] = []"
| "untilLineTerminator (c # cs) =
     (if startsLineTerminator (c # cs) then [] else c # untilLineTerminator cs)"

text \<open>
  \<open>route.match(/^\/api\/v[0-9.]+(\/.*)/)\<close>, giving the captured group. The version is
  the longest run of digits and dots (a shorter run cannot be followed by a slash), it is
  not empty, a slash follows, and the group runs from that slash up to the first line
  terminator or the end of the string; the expression has no anchor at its end.
\<close>

definition routeMatch :: "string \<Rightarrow> string option" where
  "routeMatch r =
     (case stripPrefix ''/api/v'' r of
        None \<Rightarrow> None
      | Some rest \<Rightarrow>
          (let version = takeWhile isVersionChar rest;
               after = dropWhile isVersionChar rest
           in if version = [] then None
              else
                (case after of
                   [] \<Rightarrow> None
                 | c # cs \<Rightarrow>
                     if c = CHR ''/'' then Some (c # untilLineTerminator cs)
                     else None)))"

definition isModelServerRoute :: "string \<Rightarrow> bool" where
  "isModelServerRoute r = (case routeMatch r of None \<Rightarrow> False | Some m \<Rightarrow> m \<in> STANDARD_ROUTES)"

definition handledRoutes :: "router_entry \<Rightarrow> string list" where
  "handledRoutes r =
     map stripTrailingSlashes
       (map (\<lambda>layer. route r @ (case layer of None \<Rightarrow> [] | Some p \<Rightarrow> p)) (stack r))"

text \<open>The body of \<open>routes.install\<close> for one router, on the set \<open>backstopPaths\<close>.\<close>

definition installRouter :: "string set \<Rightarrow> router_entry \<Rightarrow> string set" where
  "installRouter backstopPaths r =
     (if forwardToUpstreamOf r \<noteq> Some True then
        (let explicitlyBackstopped = (forwardToUpstreamOf r \<noteq> None)
         in backstopPaths \<union>
              set (filter (\<lambda>handledRoute. explicitlyBackstopped \<or> \<not> isModelServerRoute handledRoute)
                     (handledRoutes r)))
      else backstopPaths)"

definition install :: "router_entry list \<Rightarrow> string set \<Rightarrow> string set" where
  "install routers backstopPaths = foldl installRouter backstopPaths routers"

text \<open>
  A request as the forwarding handler reads it. Modelled from the spec:
  \<open>WSUpgradeRequest.is\<close> (web-socket-utils.ts, not part of the sources) tells whether the
  request is a WebSocket upgrade; \<open>upgrade\<close> is its answer.
\<close>

record request =
  path :: string
  url :: string
  httpMethod :: string
  body :: string
  upgrade :: bool

definition toUpperCase :: "string \<Rightarrow> string" where
  "toUpperCase s =
     map (\<lambda>c. case map_of (zip ''abcdefghijklmnopqrstuvwxyz'' ''ABCDEFGHIJKLMNOPQRSTUVWXYZ'') c of
                None \<Rightarrow> c
              | Some C \<Rightarrow> C) s"

datatype relay = Relay (relay_url: string) (relay_method: string) (relay_data: string)

datatype dispatch = PassedToWebsocket | NotForwarded | Forwarded relay

definition shouldBackstop :: "string set \<Rightarrow> request \<Rightarrow> bool" where
  "shouldBackstop backstopPaths req = (path req \<in> backstopPaths)"

definition forward :: "string set \<Rightarrow> request \<Rightarrow> dispatch" where
  "forward backstopPaths req =
     (if upgrade req then PassedToWebsocket
      else if shouldBackstop backstopPaths req then NotForwarded
      else Forwarded (Relay (url req) (toUpperCase (httpMethod req)) (body req)))"

section \<open>Concrete scenarios\<close>

definition op1 :: operation where
  "op1 = Operation ''replace'' ''/name'' ''X''"

definition op2 :: operation where
  "op2 = Operation ''add'' ''/label'' ''Y''"

text \<open>An Upstream that accepts every edit and answers a patch with the same operations.\<close>

definition echoReply :: "message list \<Rightarrow> error + model_update_result" where
  "echoReply ms =
     (case ms of
        [] \<Rightarrow> Inl (Reason ''nothing sent'')
      | _ \<Rightarrow>
          (case mdata (last ms) of
             Body (ExecutePatch (PMany ops)) \<Rightarrow> Inr \<lparr>success = True, patch = Some ops, patchModel = None\<rparr>
           | Body (ExecutePatch (POne x)) \<Rightarrow> Inr \<lparr>success = True, patch = Some [x], patchModel = None\<rparr>
           | _ \<Rightarrow> Inr \<lparr>success = True, patch = Some [], patchModel = None\<rparr>))"

definition echoUpstream :: "message list \<Rightarrow> model_update_result answer" where
  "echoUpstream ms = Answer (echoReply ms) False"

text \<open>A context whose socket has opened and whose uuid has arrived.\<close>

definition openedContext :: "uri \<Rightarrow> transaction_context" where
  "openedContext u = onuuid ''uuid-1'' (onopen (openContext (newContext u)))"

text \<open>A context whose socket has opened but whose uuid has not arrived yet.\<close>

definition awaitingContext :: "uri \<Rightarrow> transaction_context" where
  "awaitingContext u = onopen (openContext (newContext u))"

text \<open>No command providers; the trigger for \<open>[op1]\<close> is the patch \<open>[op2]\<close>, nothing else triggers.\<close>

definition triggerEnv :: env where
  "triggerEnv =
     \<lparr>hasProvider = (\<lambda>_. False),
      getCommands = (\<lambda>_ c. Answer (Inr (ProvidedCommand c)) False),
      getTriggers = (\<lambda>_ delta. if delta = [op1] then Answer (Inr (TriggerPatch [op2])) False
                                else Answer (Inr (TriggerPatch [])) False),
      upstream = echoUpstream\<rparr>"


text \<open>
  Commands of type \<open>T1\<close> are provided as a transaction function that applies the patch
  \<open>[op1]\<close> and then reports failure.
\<close>

definition failingProviderEnv :: env where
  "failingProviderEnv =
     \<lparr>hasProvider = (\<lambda>t. t = ''T1''),
      getCommands = (\<lambda>_ _. Answer (Inr (ProvidedFunction
                          (AwaitApplyPatch (PMany [op1]) (\<lambda>_. Return False)))) False),
      getTriggers = (\<lambda>_ _. Answer (Inr (TriggerPatch [])) False),
      upstream = echoUpstream\<rparr>"


definition fooRouter :: router_entry where
  "fooRouter = \<lparr>route = ''/api/v2/foo'', stack = [Some ''/''], options = None\<rparr>"

definition getRequest :: "string \<Rightarrow> request" where
  "getRequest p = \<lparr>path = p, url = p, httpMethod = ''get'', body = [], upgrade = False\<rparr>"



text \<open>An environment whose Upstream answers every edit with a failure that has no patch.\<close>

definition failedReplyEnv :: env where
  "failedReplyEnv =
     \<lparr>hasProvider = (\<lambda>_. False),
      getCommands = (\<lambda>_ c. Answer (Inr (ProvidedCommand c)) False),
      getTriggers = (\<lambda>_ _. Answer (Inr (TriggerPatch [])) False),
      upstream = (\<lambda>_. Answer (Inr \<lparr>success = False, patch = None, patchModel = None\<rparr>) False)\<rparr>"


text \<open>A normalisation that lowers the scheme of one URI.\<close>

definition exampleNormalize :: "uri \<Rightarrow> uri" where
  "exampleNormalize u = (if u = ''FILE:/m1'' then ''file:/m1'' else u)"

text \<open>
  A router mounted on \<open>/api/v2\<close> with a route for the standard path \<open>/models\<close>, once
  with default options and once with \<open>forwardToUpstream: false\<close>.
\<close>

definition modelsRouter :: router_entry where
  "modelsRouter = \<lparr>route = ''/api/v2'', stack = [Some ''/models''], options = None\<rparr>"

definition explicitModelsRouter :: router_entry where
  "explicitModelsRouter =
     \<lparr>route = ''/api/v2'', stack = [Some ''/models''],
      options = Some \<lparr>routerId = None, forwardToUpstream = Some False\<rparr>\<rparr>"

text \<open>A router with a middleware layer in front of its one route.\<close>

definition middlewareRouter :: router_entry where
  "middlewareRouter = \<lparr>route = ''/api/v2/custom'', stack = [None, Some ''/foo''], options = None\<rparr>"

section \<open>Notions used in the statements\<close>

text \<open>
  \<open>continues s s'\<close>: \<open>s'\<close> is a later state of the context \<open>s\<close>. The socket is the
  same or has closed, the uuid promise and the model URI are the same, the messages
  sent in between were appended, none of them is a \<open>close\<close>, and an \<open>execute\<close> is among
  them only if the uuid had arrived.
\<close>

definition continues :: "transaction_context \<Rightarrow> transaction_context \<Rightarrow> bool" where
  "continues s s' \<longleftrightarrow>
     (socket s' = socket s \<or> socket s' = None) \<and> uuid s' = uuid s \<and> modelURI s' = modelURI s \<and>
     (\<exists>ms. sent s' = sent s @ ms \<and>
        (\<forall>m \<in> set ms. mtype m \<noteq> close_t \<and> (mtype m = execute_t \<longrightarrow> (\<exists>x. uuid s = UuidResolved x))))"

text \<open>
  The words of the specification for a standard route: \<open>/api/v<version>\<close> followed by a
  member of \<open>STANDARD_ROUTES\<close>, the version a non-empty run of digits and dots. A path
  has no line terminator when \<open>.*\<close> matches all of it.
\<close>

definition versionedStandardRoute :: "string \<Rightarrow> bool" where
  "versionedStandardRoute p \<longleftrightarrow>
     (\<exists>version std. version \<noteq> [] \<and> (\<forall>c \<in> set version. isVersionChar c) \<and>
        std \<in> STANDARD_ROUTES \<and> p = ''/api/v'' @ version @ std)"

definition noLineTerminator :: "string \<Rightarrow> bool" where
  "noLineTerminator p = (untilLineTerminator p = p)"

text \<open>
  A client is consistent when every registered context was constructed by it and is
  registered under the string of its own model URI, the string its close call-back
  looks up.
\<close>

definition consistent :: "client \<Rightarrow> bool" where
  "consistent cl \<longleftrightarrow>
     (\<forall>k tc. transactions cl k = Some tc \<longrightarrow> tc < allocated cl \<and> modelURI (store cl tc) = k)"

section \<open>Properties of the transaction context\<close>

subsection \<open>Basic facts\<close>

lemma rollback_eq:
  "rollback s e = (Resolved transactionClosed,
       if isOpen s then s\<lparr>sent := sent s @ [message s roll_back_t (ErrorData e)]\<rparr> else s)"
  by (simp add: rollback_def socketSend_def isOpen_def)

lemma autoRollback_simps [simp]:
  "autoRollback (Rejected e, s) =
     (Rejected e, if isOpen s then s\<lparr>sent := sent s @ [message s roll_back_t (ErrorData e)]\<rparr> else s)"
  "autoRollback (Resolved v, s) = (Resolved v, s)"
  "autoRollback (Pending, s) = (Pending, s)"
  "autoRollback (OutOfFuel, s) = (OutOfFuel, s)"
  by (simp_all add: autoRollback_def rollback_eq)

lemma socketSend_open: "isOpen s \<Longrightarrow> socketSend s m = Inr (s\<lparr>sent := sent s @ [m]\<rparr>)"
  by (simp add: socketSend_def isOpen_def)

lemma awaited_open [simp]: "awaited (Answer r False) s = (r, s)"
  by (simp add: awaited_def)

lemma awaited_closed [simp]: "awaited (Answer r True) s = (r, onclose s)"
  by (simp add: awaited_def)

lemmas scenario_defs =
  openedContext_def awaitingContext_def onuuid_def onopen_def openContext_def newContext_def
  pushNestedContext_def popNestedContext_def peekNestedContext_def emptyUpdateResult_def
  isOpen_def socketSend_def message_def sendExecuteMessage_def sendPatch_def sendCommand_def
  applyPatch_def emptyPatchArg_def mergeModelUpdateResult_def echoUpstream_def echoReply_def
  commandFailedError_def socketClosedError_def transactionClosed_def onclose_def

subsection \<open>What a call leaves on the socket\<close>

text \<open>
  Every operation below \<open>commit\<close> keeps the socket open or sees it close, keeps the
  uuid promise and the model URI, only appends to the messages sent, never sends
  \<open>close\<close>, and sends \<open>execute\<close> only once the uuid has arrived. For the mutually
  recursive functions this is one simultaneous computation induction.
\<close>

lemma continues_refl [simp]: "continues s s"
  by (simp add: continues_def)

lemma continues_trans: "continues s s1 \<Longrightarrow> continues s1 s2 \<Longrightarrow> continues s s2"
  unfolding continues_def by (elim conjE exE) (auto)

lemma continues_push [simp]: "continues s (pushNestedContext s)"
  by (simp add: continues_def pushNestedContext_def)

lemma continues_pop: "popNestedContext s = Inr (r, s') \<Longrightarrow> continues s s'"
  by (auto simp: continues_def popNestedContext_def split: list.splits)

lemma continues_onclose [simp]: "continues s (onclose s)"
  by (simp add: continues_def onclose_def)

lemma continues_awaited: "continues s (snd (awaited a s))"
  by (simp add: awaited_def)

lemma continues_rollback: "continues s (snd (rollback s e))"
  by (simp add: rollback_eq continues_def message_def)

lemma continues_autoRollback:
  "continues s (snd r) \<Longrightarrow> continues s (snd (autoRollback r))"
proof (cases r)
  case (Pair x s1)
  assume c: "continues s (snd r)"
  have "continues s1 (snd (autoRollback (x, s1)))"
    by (cases x) (simp_all add: continues_def message_def)
  with c Pair show ?thesis by (auto intro: continues_trans)
qed

lemma continues_isOpen: "continues s s' \<Longrightarrow> isOpen s' \<Longrightarrow> isOpen s"
  by (auto simp: continues_def isOpen_def)

lemma continues_sendExecuteMessage: "continues s (snd (sendExecuteMessage env s b))"
proof (cases "isOpen s \<and> (\<exists>x. uuid s = UuidResolved x) \<and> nestedContexts s \<noteq> []")
  case False
  then show ?thesis
    by (auto simp: sendExecuteMessage_def peekNestedContext_def
        split: uuid_promise.splits list.splits option.splits)
next
  case True
  then obtain x cur below where h: "isOpen s" "uuid s = UuidResolved x" "nestedContexts s = cur # below"
    by (cases "nestedContexts s") auto
  let ?s1 = "s\<lparr>sent := sent s @ [message s execute_t (Body b)]\<rparr>"
  have c1: "continues s ?s1"
    using h by (simp add: continues_def message_def)
  have c2: "continues ?s1 (snd (awaited (upstream env (sent ?s1)) ?s1))"
    by (rule continues_awaited)
  obtain r s2 where a: "awaited (upstream env (sent ?s1)) ?s1 = (r, s2)"
    by (cases "awaited (upstream env (sent ?s1)) ?s1")
  with c1 c2 have c: "continues s s2" by (auto intro: continues_trans)
  then have c': "continues s (s2\<lparr>nestedContexts := ns\<rparr>)" for ns
    by (simp add: continues_def)
  show ?thesis
    using h a c c'
    by (cases r) (simp_all add: sendExecuteMessage_def peekNestedContext_def socketSend_open)
qed

lemma continues_applyPatch: "continues s (snd (applyPatch env s p))"
  by (auto simp: applyPatch_def sendPatch_def intro!: continues_autoRollback continues_sendExecuteMessage)

lemma continues_execute:
  "continues s (snd (execute n env s u c))"
  "continues s (snd (doExecute n env s u c))"
  "continues s (snd (callTransaction n env s f))"
proof (induction n env s u c and n env s u c and n env s f rule: execute_doExecute_callTransaction.induct)
  case (1 n env s modelUri command)
  then show ?case by (auto intro!: continues_autoRollback)
next
  case (2 n env s modelUri command)
  show ?case
  proof (cases "hasProvider env (ctype command)")
    case False
    then show ?thesis by (simp add: sendCommand_def continues_sendExecuteMessage)
  next
    case True
    obtain r s0 where a: "awaited (getCommands env modelUri command) s = (r, s0)"
      by (cases "awaited (getCommands env modelUri command) s")
    have c0: "continues s s0"
      using continues_awaited[of s "getCommands env modelUri command"] a by simp
    show ?thesis
    proof (cases r)
      case (Inl e)
      with True a c0 show ?thesis by simp
    next
      case (Inr pr)
      show ?thesis
      proof (cases pr)
        case (ProvidedCommand c)
        have "continues s0 (snd (sendExecuteMessage env s0 (ExecuteCommand c)))"
          by (rule continues_sendExecuteMessage)
        with True a Inr ProvidedCommand c0 show ?thesis
          by (auto simp: sendCommand_def intro: continues_trans)
      next
        case (ProvidedPatch p)
        have "continues s0 (snd (sendExecuteMessage env s0 (ExecutePatch p)))"
          by (rule continues_sendExecuteMessage)
        with True a Inr ProvidedPatch c0 show ?thesis
          by (auto simp: sendPatch_def intro: continues_trans)
      next
        case (ProvidedFunction f)
        have ih: "continues (pushNestedContext s0) (snd (callTransaction n env (pushNestedContext s0) f))"
          using 2 True a Inr ProvidedFunction by simp
        then have c: "continues s (snd (callTransaction n env (pushNestedContext s0) f))"
          using c0 continues_push continues_trans by blast
        show ?thesis using True a Inr ProvidedFunction c
          by (auto split: prod.splits outcome.splits sum.splits dest: continues_pop intro: continues_trans)
      qed
    qed
  qed
next
  case (3 n env s b)
  then show ?case by simp
next
  case (4 n env s e)
  then show ?case by simp
next
  case (5 env s u c k)
  then show ?case by simp
next
  case (6 n env s u c k)
  then show ?case
    by (auto split: prod.splits outcome.splits intro: continues_trans)
next
  case (7 env s p k)
  then show ?case by simp
next
  case (8 n env s p k)
  have "continues s (snd (applyPatch env s p))" by (rule continues_applyPatch)
  with 8 show ?case
    by (auto split: prod.splits outcome.splits intro: continues_trans)
qed

lemma continues_finallyPop:
  "continues s (snd r) \<Longrightarrow> continues s (snd (finallyPop r))"
  by (cases r) (auto simp: finallyPop_def split: outcome.splits sum.splits
      dest: continues_pop intro: continues_trans)

lemma continues_performTriggers: "continues s (snd (performTriggers n env s t))"
proof -
  have a: "continues s (snd (callTransaction n env (pushNestedContext s) f))" for f
    using continues_execute(3) continues_push continues_trans by blast
  have b: "continues s (snd (applyPatch env (pushNestedContext s) p))" for p
    using continues_applyPatch continues_push continues_trans by blast
  show ?thesis
    by (cases t) (simp_all add: performTriggers_def continues_finallyPop a b)
qed

lemma continues_settled:
  "continues s (snd (autoRollback (settled a s)))"
proof -
  have "continues s (snd (settled a s))"
    using continues_awaited[of s a]
    by (auto simp: settled_def split: prod.splits sum.splits)
  then show ?thesis by (rule continues_autoRollback)
qed

lemma continues_triggerLoop: "continues s (snd (triggerLoop n env s u d))"
proof (induction n env s u d rule: triggerLoop.induct)
  case (1 n env s updateResult)
  then show ?case by simp
next
  case (2 env s updateResult modelDelta)
  then show ?case by simp
next
  case (3 n env s updateResult modelDelta)
  have a: "continues s (snd (autoRollback (settled (getTriggers env (modelURI s) modelDelta) s)))"
    by (rule continues_settled)
  show ?case
  proof (cases "modelDelta = []")
    case True
    then show ?thesis by simp
  next
    case False
    obtain x s1 where x: "autoRollback (settled (getTriggers env (modelURI s) modelDelta) s) = (x, s1)"
      by (cases "autoRollback (settled (getTriggers env (modelURI s) modelDelta) s)")
    with a have c1: "continues s s1" by simp
    show ?thesis
    proof (cases x)
      case (Resolved t)
      show ?thesis
      proof (cases "hasTriggers t")
        case False
        with \<open>modelDelta \<noteq> []\<close> x Resolved c1 show ?thesis by simp
      next
        case True
        obtain y s2 where y: "performTriggers n env s1 t = (y, s2)"
          by (cases "performTriggers n env s1 t")
        have c2: "continues s1 s2" using continues_performTriggers[of s1 n env t] y by simp
        show ?thesis
        proof (cases y)
          case (Resolved triggerResult)
          have "continues s2 (snd (triggerLoop n env s2
                  (mergeModelUpdateResult updateResult (Some triggerResult)) (patch triggerResult)))"
            using 3 \<open>modelDelta \<noteq> []\<close> x \<open>x = Resolved t\<close> True y Resolved by simp
          with c1 c2 show ?thesis
            using \<open>modelDelta \<noteq> []\<close> x \<open>x = Resolved t\<close> True y Resolved
            by (auto intro: continues_trans)
        qed (use \<open>modelDelta \<noteq> []\<close> x \<open>x = Resolved t\<close> True y c1 c2 in \<open>auto intro: continues_trans\<close>)
      qed
    qed (use \<open>modelDelta \<noteq> []\<close> x c1 in auto)
  qed
qed

lemma execute_messages_await_uuid:
  assumes "\<forall>x. uuid s \<noteq> UuidResolved x"
  shows "\<forall>m \<in> set (drop (length (sent s)) (sent (snd (execute n env s u c)))). mtype m \<noteq> execute_t"
    and "\<forall>m \<in> set (drop (length (sent s)) (sent (snd (applyPatch env s p)))). mtype m \<noteq> execute_t"
    and "\<forall>m \<in> set (drop (length (sent s)) (sent (snd (triggerLoop n env s r d)))). mtype m \<noteq> execute_t"
  using assms continues_execute(1)[of s n env u c] continues_applyPatch[of s env p]
    continues_triggerLoop[of s n env r d]
  by (auto simp: continues_def)












subsection \<open>Merging update results\<close>

lemma sendExecuteMessage_reply:
  assumes "isOpen s" and "uuid s = UuidResolved x" and "nestedContexts s = current # below"
    and "upstream env (sent s @ [message s execute_t (Body b)]) = Answer (Inr reply) False"
  shows "sendExecuteMessage env s b =
           (Resolved reply,
            s\<lparr>sent := sent s @ [message s execute_t (Body b)],
              nestedContexts := mergeModelUpdateResult current (Some reply) # below\<rparr>)"
  using assms
  by (simp add: sendExecuteMessage_def socketSend_open peekNestedContext_def message_def)

text \<open>
  What a merge does: the operations of the aggregate are those it had followed by those
  of the merged result, and a result that carries operations, or that succeeded, leaves
  the conjunction of the two success flags.
\<close>

lemma mergeModelUpdateResult_monoid:
  "patchOps (mergeModelUpdateResult r1 (Some r2)) = patchOps r1 @ patchOps r2
   \<and> (patchOps r2 \<noteq> [] \<or> success r2 \<longrightarrow>
        success (mergeModelUpdateResult r1 (Some r2)) = (success r1 \<and> success r2))"
  by (auto simp: mergeModelUpdateResult_def patchOps_def Let_def split: option.splits)

text \<open>
  C2. A reply that reports failure and carries no patch operations is accepted and
  returned, but it is not merged: the guard of \<open>mergeModelUpdateResult\<close> skips it, so
  the aggregate of the current nested context keeps \<open>success = true\<close>. Here a command
  is sent on a fresh open context and Upstream answers \<open>{ success: false }\<close>: the reply
  is returned to the caller, the root aggregate is unchanged, and the commit that
  follows resolves to a result with \<open>success = true\<close>. The same holds for a failed reply
  whose patch is the empty array.
\<close>

theorem failed_reply_leaves_success:
  "sendExecuteMessage failedReplyEnv (openedContext ''file:/m1'') (ExecuteCommand (Command ''T1'' [])) =
     (Resolved \<lparr>success = False, patch = None, patchModel = None\<rparr>,
      \<lparr>socket = Some OPEN,
       nestedContexts = [\<lparr>success = True, patch = Some [], patchModel = None\<rparr>],
       uuid = UuidResolved ''uuid-1'',
       modelURI = ''file:/m1'',
       sent = [Message execute_t ''file:/m1'' (Body (ExecuteCommand (Command ''T1'' [])))]\<rparr>)
   \<and> commit 0 failedReplyEnv
        (snd (execute 0 failedReplyEnv (openedContext ''file:/m1'') ''file:/m1'' (Command ''T1'' []))) =
     (Resolved \<lparr>success = True, patch = Some [], patchModel = None\<rparr>,
      \<lparr>socket = Some OPEN,
       nestedContexts = [],
       uuid = UuidResolved ''uuid-1'',
       modelURI = ''file:/m1'',
       sent = [Message execute_t ''file:/m1'' (Body (ExecuteCommand (Command ''T1'' []))),
               Message close_t ''file:/m1'' EmptyData]\<rparr>)
   \<and> mergeModelUpdateResult \<lparr>success = True, patch = Some [op1], patchModel = None\<rparr>
        (Some \<lparr>success = False, patch = Some [], patchModel = None\<rparr>) =
      \<lparr>success = True, patch = Some [op1], patchModel = None\<rparr>"
  by (simp add: failedReplyEnv_def commit_def scenario_defs)

subsection \<open>Empty patches and closed sockets\<close>

text \<open>
  C7, as amended. For every empty or nil argument, \<open>applyPatch\<close> on an open socket
  returns \<open>{ success: false }\<close> and leaves the context as it was, so nothing is sent and
  nothing is rejected; on a socket that is not open it rejects with
  \<open>'Socket is closed.'\<close>, again without sending.
\<close>

theorem applyPatch_empty_patch:
  "emptyPatchArg p \<Longrightarrow>
   applyPatch env s p =
     (if isOpen s then (Resolved \<lparr>success = False, patch = None, patchModel = None\<rparr>, s)
      else (Rejected socketClosedError, s))"
  by (simp add: applyPatch_def)

theorem applyPatch_empty_patch_witness:
  "emptyPatchArg (PMany [])
   \<and> applyPatch triggerEnv (openedContext ''file:/m1'') (PMany []) =
       (Resolved \<lparr>success = False, patch = None, patchModel = None\<rparr>, openedContext ''file:/m1'')"
proof -
  have e: "emptyPatchArg (PMany [])" by (simp add: emptyPatchArg_def)
  have o: "isOpen (openedContext ''file:/m1'')"
    by (simp add: openedContext_def onuuid_def onopen_def openContext_def newContext_def
        pushNestedContext_def isOpen_def)
  show ?thesis
    using e o applyPatch_empty_patch [OF e, of triggerEnv "openedContext ''file:/m1''"] by simp
qed

text \<open>
  The claim as stated fails: on a context whose socket is not open, a nil patch is
  rejected.
\<close>

theorem applyPatch_nil_closed_counterexample:
  "emptyPatchArg PNil
   \<and> applyPatch triggerEnv (openContext (newContext ''file:/m1'')) PNil =
       (Rejected socketClosedError, openContext (newContext ''file:/m1''))"
  by (simp add: applyPatch_def emptyPatchArg_def isOpen_def openContext_def newContext_def
      pushNestedContext_def)




subsection \<open>Commit\<close>



subsection \<open>Command execution through a provided transaction function\<close>

text \<open>
  What \<open>doExecute\<close> does once the provided transaction function has returned: the
  nested context is popped by \<open>popNestedContext\<close> on both branches, so its aggregate is
  merged into the context below whether the function reported success or failure.
\<close>

lemma doExecute_provided_function:
  assumes "hasProvider env (ctype c)" and "getCommands env u c = Answer (Inr (ProvidedFunction f)) False"
    and "callTransaction n env (pushNestedContext s) f = (Resolved ok, s1)"
    and "nestedContexts s1 = result # parent # below"
  shows "doExecute n env s u c =
           (if ok then Resolved result else Rejected commandFailedError,
            s1\<lparr>nestedContexts := mergeModelUpdateResult parent (Some result) # below\<rparr>)"
  using assms by (simp add: popNestedContext_def)

text \<open>
  C3. The claim holds for a command without provider, for a substitute command or patch
  and for a transaction function that returns true, but not for one that returns false:
  the code pops the nested context with \<open>popNestedContext\<close>, which merges the aggregate
  of the failed function into the parent context instead of discarding it. Here a
  command of type \<open>T1\<close> is executed on a fresh open context; its provider applies the
  patch \<open>[op1]\<close> and returns false. The call rejects with
  \<open>'Command execution failed.'\<close>, and the root context, empty before the call, now
  holds \<open>[op1]\<close>.
\<close>

theorem failed_function_merged_into_parent:
  "execute 1 failingProviderEnv (openedContext ''file:/m1'') ''file:/m1'' (Command ''T1'' []) =
     (Rejected commandFailedError,
      \<lparr>socket = Some OPEN,
       nestedContexts = [\<lparr>success = True, patch = Some [op1], patchModel = None\<rparr>],
       uuid = UuidResolved ''uuid-1'',
       modelURI = ''file:/m1'',
       sent = [Message execute_t ''file:/m1'' (Body (ExecutePatch (PMany [op1]))),
               Message roll_back_t ''file:/m1'' (ErrorData commandFailedError)]\<rparr>)
   \<and> nestedContexts (openedContext ''file:/m1'') = [emptyUpdateResult]"
  by (simp add: failingProviderEnv_def scenario_defs)

subsection \<open>Automatic roll-back\<close>




subsection \<open>Messages and the uuid\<close>

text \<open>
  C9. \<open>sendExecuteMessage\<close> awaits the uuid before it sends (see
  \<open>execute_messages_await_uuid\<close>), but \<open>rollback\<close> and \<open>commit\<close> do not: on a context
  whose socket has opened and whose uuid has not arrived, \<open>rollback\<close> sends the
  roll-back message and \<open>commit\<close> sends the \<open>close\<close> message, while \<open>applyPatch\<close> sends
  nothing and stays pending.
\<close>

theorem rollback_sent_before_uuid:
  "isOpen (awaitingContext ''file:/m1'')
   \<and> uuid (awaitingContext ''file:/m1'') = UuidPending
   \<and> sent (awaitingContext ''file:/m1'') = []
   \<and> rollback (awaitingContext ''file:/m1'') (Reason ''abort'') =
       (Resolved transactionClosed,
        (awaitingContext ''file:/m1'')
          \<lparr>sent := [Message roll_back_t ''file:/m1'' (ErrorData (Reason ''abort''))]\<rparr>)
   \<and> commit 0 triggerEnv (awaitingContext ''file:/m1'') =
       (Resolved emptyUpdateResult,
        (awaitingContext ''file:/m1'')
          \<lparr>nestedContexts := [], sent := [Message close_t ''file:/m1'' EmptyData]\<rparr>)
   \<and> applyPatch triggerEnv (awaitingContext ''file:/m1'') (PMany [op1])
       = (Pending, awaitingContext ''file:/m1'')"
  by (simp add: rollback_eq commit_def triggerEnv_def scenario_defs)

section \<open>Properties of the transaction manager\<close>

text \<open>
  The first step of \<open>openTransaction\<close>: on a URI whose normalised string is registered
  it delegates to the registered context, which pushes a nested context for the child
  and is otherwise left as it was; the map and the number of constructed contexts do not
  change. Until the POST is answered nothing is registered: on a URI without entry the
  first step leaves the client as it was.
\<close>

lemma beginOpenTransaction_delegates:
  assumes "transactions cl (normalizeUri modelUri) = Some tc"
  shows "fst (beginOpenTransaction normalizeUri cl modelUri) = Delegated tc"
    and "transactions (snd (beginOpenTransaction normalizeUri cl modelUri)) = transactions cl"
    and "allocated (snd (beginOpenTransaction normalizeUri cl modelUri)) = allocated cl"
    and "nestedContexts (store (snd (beginOpenTransaction normalizeUri cl modelUri)) tc)
           = emptyUpdateResult # nestedContexts (store cl tc)"
    and "x \<noteq> tc \<Longrightarrow> store (snd (beginOpenTransaction normalizeUri cl modelUri)) x = store cl x"
  using assms
  by (simp_all add: beginOpenTransaction_def openChildTransaction_def pushNestedContext_def)

lemma pending_open_not_registered:
  "transactions cl (normalizeUri modelUri) = None \<Longrightarrow>
   beginOpenTransaction normalizeUri cl modelUri = (Posting (normalizeUri modelUri), cl)"
  by (simp add: beginOpenTransaction_def)

text \<open>
  \<open>closeTransaction\<close> removes the entry exactly when it still maps to the closing
  context, and never touches the entry of another key.
\<close>

lemma closeTransaction_guard:
  "transactions (closeTransaction cl k tc) k = (if transactions cl k = Some tc then None else transactions cl k)"
  "k' \<noteq> k \<Longrightarrow> transactions (closeTransaction cl k tc) k' = transactions cl k'"
  by (simp_all add: closeTransaction_def)

lemma consistent_steps:
  assumes "consistent cl"
  shows "consistent (snd (beginOpenTransaction normalizeUri cl modelUri))"
    and "consistent (snd (completeOpenTransaction cl uriKey response))"
proof -
  show "consistent (snd (beginOpenTransaction normalizeUri cl modelUri))"
    using assms
    by (cases "transactions cl (normalizeUri modelUri)")
       (auto simp: beginOpenTransaction_def consistent_def openChildTransaction_def
          pushNestedContext_def)
  show "consistent (snd (completeOpenTransaction cl uriKey response))"
    using assms
    by (cases response)
       (auto simp: completeOpenTransaction_def consistent_def openContext_def newContext_def
          pushNestedContext_def Let_def less_Suc_eq)
qed

lemma transactions_socketClosed:
  "transactions (socketClosed cl tc) =
     (if transactions cl (modelURI (store cl tc)) = Some tc
      then (transactions cl)(modelURI (store cl tc) := None) else transactions cl)"
  by (simp add: socketClosed_def closeTransaction_def Let_def)

lemma allocated_socketClosed: "allocated (socketClosed cl tc) = allocated cl"
  by (simp add: socketClosed_def closeTransaction_def Let_def)

lemma modelURI_socketClosed: "modelURI (store (socketClosed cl tc) x) = modelURI (store cl x)"
  by (simp add: socketClosed_def closeTransaction_def Let_def onclose_def)

lemma consistent_socketClosed:
  assumes "consistent cl"
  shows "consistent (socketClosed cl tc)" and "tc \<notin> ran (transactions (socketClosed cl tc))"
proof -
  show "consistent (socketClosed cl tc)"
    unfolding consistent_def
  proof (intro allI impI)
    fix k x
    assume "transactions (socketClosed cl tc) k = Some x"
    then have "transactions cl k = Some x"
      by (simp add: transactions_socketClosed split: if_splits)
    with assms show "x < allocated (socketClosed cl tc) \<and> modelURI (store (socketClosed cl tc) x) = k"
      by (simp add: consistent_def allocated_socketClosed modelURI_socketClosed)
  qed
  show "tc \<notin> ran (transactions (socketClosed cl tc))"
  proof
    assume "tc \<in> ran (transactions (socketClosed cl tc))"
    then obtain k where k: "transactions (socketClosed cl tc) k = Some tc"
      by (auto simp: ran_def)
    then have c: "transactions cl k = Some tc"
      by (simp add: transactions_socketClosed split: if_splits)
    with assms have "modelURI (store cl tc) = k" by (simp add: consistent_def)
    with c k show False by (simp add: transactions_socketClosed)
  qed
qed

text \<open>
  C5. The test \<open>transactions.has(uriKey)\<close> and the registration
  \<open>transactions.set(uriKey, result)\<close> are separated by the POST. Here a client without
  transactions gets two \<open>openTransaction\<close> calls for the same model, the second before
  the POST of the first is answered (the second with a URI that differs from the first
  before normalisation). Both calls find no entry and issue a POST; when the two
  responses arrive, each handler constructs and opens a root context: two root contexts
  exist for the model, the entry of the first is replaced by the second in the map, and
  the second call did not give a child of the first. When the first context closes
  afterwards, the entry of the second stays in the map.
\<close>

theorem second_open_in_flight_builds_second_root:
  "beginOpenTransaction exampleNormalize newClient ''file:/m1'' = (Posting ''file:/m1'', newClient)
   \<and> beginOpenTransaction exampleNormalize newClient ''FILE:/m1'' = (Posting ''file:/m1'', newClient)
   \<and> completeOpenTransaction newClient ''file:/m1'' (Inr ''tx-1'') =
       (Inr 0,
        \<lparr>transactions = [''file:/m1'' \<mapsto> 0],
         store = (store newClient)(0 := openContext (newContext ''file:/m1'')),
         allocated = 1\<rparr>)
   \<and> completeOpenTransaction
        \<lparr>transactions = [''file:/m1'' \<mapsto> 0],
         store = (store newClient)(0 := openContext (newContext ''file:/m1'')),
         allocated = 1\<rparr> ''file:/m1'' (Inr ''tx-2'') =
       (Inr 1,
        \<lparr>transactions = [''file:/m1'' \<mapsto> 1],
         store = (store newClient)(0 := openContext (newContext ''file:/m1''),
                                   1 := openContext (newContext ''file:/m1'')),
         allocated = 2\<rparr>)
   \<and> nestedContexts (openContext (newContext ''file:/m1'')) = [emptyUpdateResult]
   \<and> transactions
        (socketClosed
           \<lparr>transactions = [''file:/m1'' \<mapsto> 1],
            store = (store newClient)(0 := openContext (newContext ''file:/m1''),
                                      1 := openContext (newContext ''file:/m1'')),
            allocated = 2\<rparr> 0) = [''file:/m1'' \<mapsto> 1]"
  by (simp add: beginOpenTransaction_def completeOpenTransaction_def exampleNormalize_def
      newClient_def socketClosed_def closeTransaction_def openContext_def newContext_def
      pushNestedContext_def Let_def)

section \<open>Properties of the gateway\<close>

lemma stripPrefix_append: "stripPrefix p (p @ s) = Some s"
  by (induction p) auto

lemma stripPrefix_Some: "stripPrefix p s = Some r \<Longrightarrow> s = p @ r"
  by (induction p s rule: stripPrefix.induct) (auto split: if_splits)

lemma not_version_slash: "\<not> isVersionChar CHR ''/''"
  by (simp add: isVersionChar_def)

lemma routeMatch_form:
  assumes "version \<noteq> []" "\<forall>c \<in> set version. isVersionChar c"
  shows "routeMatch (''/api/v'' @ version @ CHR ''/'' # cs)
           = Some (CHR ''/'' # untilLineTerminator cs)"
proof -
  have t: "takeWhile isVersionChar (version @ CHR ''/'' # cs) = version"
    using assms(2) by (simp add: takeWhile_append2 not_version_slash)
  have d: "dropWhile isVersionChar (version @ CHR ''/'' # cs) = CHR ''/'' # cs"
    using assms(2) by (simp add: dropWhile_append2 not_version_slash)
  have "stripPrefix ''/api/v'' (''/api/v'' @ version @ CHR ''/'' # cs) = Some (version @ CHR ''/'' # cs)"
    by (rule stripPrefix_append)
  then show ?thesis
    unfolding routeMatch_def using t d assms(1) by (simp add: Let_def)
qed

lemma routeMatch_Some:
  assumes "routeMatch p = Some m"
  shows "\<exists>version cs. version \<noteq> [] \<and> (\<forall>c \<in> set version. isVersionChar c) \<and>
           p = ''/api/v'' @ version @ CHR ''/'' # cs \<and>
           m = CHR ''/'' # untilLineTerminator cs"
proof -
  from assms obtain rest where r: "stripPrefix ''/api/v'' p = Some rest"
    unfolding routeMatch_def by (auto split: option.splits)
  then have p: "p = ''/api/v'' @ rest" by (rule stripPrefix_Some)
  let ?v = "takeWhile isVersionChar rest"
  let ?a = "dropWhile isVersionChar rest"
  from assms r have v: "?v \<noteq> []"
    unfolding routeMatch_def by (auto simp: Let_def split: if_splits)
  from assms r v obtain cs where a: "?a = CHR ''/'' # cs"
    and m: "m = CHR ''/'' # untilLineTerminator cs"
    unfolding routeMatch_def by (auto simp: Let_def split: if_splits list.splits)
  have "rest = ?v @ ?a" by simp
  with a have "rest = ?v @ CHR ''/'' # cs" by simp
  moreover have "\<forall>c \<in> set ?v. isVersionChar c" by (auto dest: set_takeWhileD)
  ultimately show ?thesis using p v m by blast
qed

lemma noLineTerminator_suffix: "noLineTerminator (a @ b) \<Longrightarrow> noLineTerminator b"
  unfolding noLineTerminator_def
  by (induction a) (auto split: if_splits)

text \<open>
  On a path without line terminator, \<open>isModelServerRoute\<close> holds exactly of the paths
  \<open>/api/v<version>\<close> followed by a standard route.
\<close>

lemma isModelServerRoute_iff:
  assumes "noLineTerminator p"
  shows "isModelServerRoute p \<longleftrightarrow> versionedStandardRoute p"
proof
  assume "isModelServerRoute p"
  then obtain m where m: "routeMatch p = Some m" "m \<in> STANDARD_ROUTES"
    by (auto simp: isModelServerRoute_def split: option.splits)
  from routeMatch_Some[OF m(1)] obtain version cs where
    v: "version \<noteq> []" "\<forall>c \<in> set version. isVersionChar c"
      "p = ''/api/v'' @ version @ CHR ''/'' # cs"
      "m = CHR ''/'' # untilLineTerminator cs"
    by blast
  have "p = (''/api/v'' @ version @ ''/'') @ cs" using v(3) by simp
  with assms have "noLineTerminator cs" using noLineTerminator_suffix by metis
  then have "p = ''/api/v'' @ version @ m"
    using v by (simp add: noLineTerminator_def)
  with v m show "versionedStandardRoute p"
    unfolding versionedStandardRoute_def by blast
next
  assume "versionedStandardRoute p"
  then obtain version std where
    v: "version \<noteq> []" "\<forall>c \<in> set version. isVersionChar c" "std \<in> STANDARD_ROUTES"
      "p = ''/api/v'' @ version @ std"
    unfolding versionedStandardRoute_def by blast
  from v(3) obtain ds where ds: "std = CHR ''/'' # ds"
    unfolding STANDARD_ROUTES_def by auto
  have "p = (''/api/v'' @ version @ ''/'') @ ds" using v(4) ds by simp
  with assms have "noLineTerminator ds" using noLineTerminator_suffix by metis
  then have u: "untilLineTerminator ds = ds" by (simp add: noLineTerminator_def)
  have "routeMatch p = Some (CHR ''/'' # untilLineTerminator ds)"
    using routeMatch_form[OF v(1) v(2), of ds] v(4) ds by simp
  with u ds v(3) show "isModelServerRoute p"
    by (simp add: isModelServerRoute_def)
qed

lemma install_union:
  "install routers B =
     B \<union> {h. \<exists>r \<in> set routers. forwardToUpstreamOf r \<noteq> Some True \<and> h \<in> set (handledRoutes r) \<and>
               (forwardToUpstreamOf r \<noteq> None \<or> \<not> isModelServerRoute h)}"
proof (induction routers arbitrary: B)
  case Nil
  then show ?case by (simp add: install_def)
next
  case (Cons r rs)
  have "install (r # rs) B = install rs (installRouter B r)"
    by (simp add: install_def)
  also have "\<dots> = installRouter B r \<union> {h. \<exists>r \<in> set rs. forwardToUpstreamOf r \<noteq> Some True \<and>
       h \<in> set (handledRoutes r) \<and> (forwardToUpstreamOf r \<noteq> None \<or> \<not> isModelServerRoute h)}"
    by (rule Cons.IH)
  finally show ?case
    by (auto simp: installRouter_def Let_def)
qed

lemma strip_no_trailing_slash: "stripTrailingSlashes x \<noteq> y @ ''/''"
proof
  assume "stripTrailingSlashes x = y @ ''/''"
  then have "dropWhile (\<lambda>c. c = CHR ''/'') (rev x) = CHR ''/'' # rev y"
    by (metis rev_rev_ident rev.simps(2) rev_append stripTrailingSlashes_def append_Nil rev.simps(1) append_Cons)
  then show False
    using hd_dropWhile[of "\<lambda>c. c = CHR ''/''" "rev x"] by simp
qed

text \<open>
  C8, as amended. For routers whose handled paths contain no line terminator: after
  \<open>routes.install\<close> on an empty backstop set, the set holds exactly the full paths,
  trailing slashes stripped, of the layers of every router whose \<open>forwardToUpstream\<close>
  option is falsy (a layer without a route, a middleware, counts with the router's own
  mount route), except, unless the router set \<open>forwardToUpstream\<close> to false, the paths
  of the form \<open>/api/v<version>\<close> followed by a member of \<open>STANDARD_ROUTES\<close>. A request
  that is not an upgrade is not forwarded when its path is in the backstop set and is
  forwarded otherwise.
\<close>

theorem backstop_set:
  "((\<forall>r \<in> set routers. \<forall>h \<in> set (handledRoutes r). noLineTerminator h) \<longrightarrow>
      install routers {} =
        {h. \<exists>r \<in> set routers. forwardToUpstreamOf r \<noteq> Some True \<and>
              (\<exists>layer \<in> set (stack r).
                 h = stripTrailingSlashes (route r @ (case layer of None \<Rightarrow> [] | Some p \<Rightarrow> p))) \<and>
              (forwardToUpstreamOf r = Some False \<or> \<not> versionedStandardRoute h)})
   \<and> (\<not> upgrade req \<longrightarrow>
        (forward B req = NotForwarded \<longleftrightarrow> path req \<in> B) \<and>
        (path req \<notin> B \<longrightarrow>
           forward B req = Forwarded (Relay (url req) (toUpperCase (httpMethod req)) (body req))))"
proof (intro conjI impI)
  assume a: "\<forall>r \<in> set routers. \<forall>h \<in> set (handledRoutes r). noLineTerminator h"
  have f: "forwardToUpstreamOf r \<noteq> Some True \<Longrightarrow>
        (forwardToUpstreamOf r \<noteq> None) = (forwardToUpstreamOf r = Some False)" for r
    by (cases "forwardToUpstreamOf r") auto
  have i: "r \<in> set routers \<Longrightarrow> h \<in> set (handledRoutes r) \<Longrightarrow>
        isModelServerRoute h = versionedStandardRoute h" for r h
    using a isModelServerRoute_iff by blast
  have l: "h \<in> set (handledRoutes r) \<longleftrightarrow>
      (\<exists>layer \<in> set (stack r).
         h = stripTrailingSlashes (route r @ (case layer of None \<Rightarrow> [] | Some p \<Rightarrow> p)))" for h r
    by (auto simp: handledRoutes_def)
  have "install routers {} =
     {h. \<exists>r \<in> set routers. forwardToUpstreamOf r \<noteq> Some True \<and> h \<in> set (handledRoutes r) \<and>
           (forwardToUpstreamOf r \<noteq> None \<or> \<not> isModelServerRoute h)}"
    unfolding install_union[of routers "{}"] by simp
  also have "\<dots> =
     {h. \<exists>r \<in> set routers. forwardToUpstreamOf r \<noteq> Some True \<and> h \<in> set (handledRoutes r) \<and>
           (forwardToUpstreamOf r = Some False \<or> \<not> versionedStandardRoute h)}"
    using f i by blast
  finally show "install routers {} =
        {h. \<exists>r \<in> set routers. forwardToUpstreamOf r \<noteq> Some True \<and>
              (\<exists>layer \<in> set (stack r).
                 h = stripTrailingSlashes (route r @ (case layer of None \<Rightarrow> [] | Some p \<Rightarrow> p))) \<and>
              (forwardToUpstreamOf r = Some False \<or> \<not> versionedStandardRoute h)}"
    unfolding l .
next
  assume "\<not> upgrade req"
  then show "(forward B req = NotForwarded) = (path req \<in> B)"
    by (simp add: forward_def shouldBackstop_def)
next
  assume "\<not> upgrade req" "path req \<notin> B"
  then show "forward B req = Forwarded (Relay (url req) (toUpperCase (httpMethod req)) (body req))"
    by (simp add: forward_def shouldBackstop_def)
qed

theorem backstop_set_witness:
  "handledRoutes fooRouter = [''/api/v2/foo'']
   \<and> handledRoutes modelsRouter = [''/api/v2/models'']
   \<and> handledRoutes explicitModelsRouter = [''/api/v2/models'']
   \<and> noLineTerminator ''/api/v2/foo'' \<and> noLineTerminator ''/api/v2/models''
   \<and> ''/api/v2/foo'' \<in> install [fooRouter, modelsRouter] {}
   \<and> ''/api/v2/models'' \<notin> install [fooRouter, modelsRouter] {}
   \<and> ''/api/v2/models'' \<in> install [explicitModelsRouter] {}
   \<and> forward {''/api/v2/foo''} (getRequest ''/api/v2/foo'') = NotForwarded
   \<and> forward {''/api/v2/foo''} (getRequest ''/api/v2/models'')
       = Forwarded (Relay ''/api/v2/models'' ''GET'' [])"
proof -
  have s: "stripTrailingSlashes ''/api/v2/foo/'' = ''/api/v2/foo''"
    "stripTrailingSlashes ''/api/v2/models'' = ''/api/v2/models''"
    by (simp_all add: stripTrailingSlashes_def)
  have n: "noLineTerminator ''/api/v2/foo''" "noLineTerminator ''/api/v2/models''"
    by (simp_all add: noLineTerminator_def startsLineTerminator_def)
  have h1: "\<forall>r \<in> set [fooRouter, modelsRouter]. \<forall>h \<in> set (handledRoutes r). noLineTerminator h"
    using n by (simp add: fooRouter_def modelsRouter_def handledRoutes_def s)
  have h2: "\<forall>r \<in> set [explicitModelsRouter]. \<forall>h \<in> set (handledRoutes r). noLineTerminator h"
    using n by (simp add: explicitModelsRouter_def handledRoutes_def s)
  have v: "versionedStandardRoute ''/api/v2/models''"
    unfolding versionedStandardRoute_def
    by (rule exI[of _ "''2''"], rule exI[of _ "''/models''"])
       (simp add: isVersionChar_def STANDARD_ROUTES_def)
  have "\<not> isModelServerRoute ''/api/v2/foo''"
    by (simp add: isModelServerRoute_def routeMatch_def isVersionChar_def startsLineTerminator_def
        STANDARD_ROUTES_def Let_def)
  then have nv: "\<not> versionedStandardRoute ''/api/v2/foo''"
    using isModelServerRoute_iff[OF n(1)] by simp
  note e1 = backstop_set [of "[fooRouter, modelsRouter]" "getRequest ''/api/v2/foo''" "{''/api/v2/foo''}",
      THEN conjunct1, THEN mp, OF h1]
  note e2 = backstop_set [of "[explicitModelsRouter]" "getRequest ''/api/v2/foo''" "{''/api/v2/foo''}",
      THEN conjunct1, THEN mp, OF h2]
  note f1 = backstop_set [of "[fooRouter, modelsRouter]" "getRequest ''/api/v2/foo''" "{''/api/v2/foo''}",
      THEN conjunct2]
  note f2 = backstop_set [of "[fooRouter, modelsRouter]" "getRequest ''/api/v2/models''" "{''/api/v2/foo''}",
      THEN conjunct2]
  have 1: "''/api/v2/foo'' \<in> install [fooRouter, modelsRouter] {}"
    unfolding e1 using nv
    by (simp add: fooRouter_def modelsRouter_def forwardToUpstreamOf_def s)
  have 2: "''/api/v2/models'' \<notin> install [fooRouter, modelsRouter] {}"
    unfolding e1 using v
    by (simp add: fooRouter_def modelsRouter_def forwardToUpstreamOf_def s)
  have 3: "''/api/v2/models'' \<in> install [explicitModelsRouter] {}"
    unfolding e2
    by (simp add: explicitModelsRouter_def forwardToUpstreamOf_def s)
  have 4: "forward {''/api/v2/foo''} (getRequest ''/api/v2/foo'') = NotForwarded"
    using f1 by (simp add: getRequest_def)
  have 5: "forward {''/api/v2/foo''} (getRequest ''/api/v2/models'')
       = Forwarded (Relay ''/api/v2/models'' ''GET'' [])"
    using f2 by (simp add: getRequest_def toUpperCase_def)
  have r: "handledRoutes fooRouter = [''/api/v2/foo'']"
    "handledRoutes modelsRouter = [''/api/v2/models'']"
    "handledRoutes explicitModelsRouter = [''/api/v2/models'']"
    by (simp_all add: fooRouter_def modelsRouter_def explicitModelsRouter_def handledRoutes_def s)
  from r n 1 2 3 4 5 show ?thesis by simp
qed

text \<open>
  The claim as stated fails: a router with a middleware layer has its own mount route
  in the backstop set, which is not the full path of any of its routes.
\<close>

theorem backstop_counterexample:
  "forwardToUpstreamOf middlewareRouter = None
   \<and> stack middlewareRouter = [None, Some ''/foo'']
   \<and> route middlewareRouter = ''/api/v2/custom''
   \<and> install [middlewareRouter] {} = {''/api/v2/custom'', ''/api/v2/custom/foo''}"
proof -
  have "\<not> isModelServerRoute ''/api/v2/custom''" "\<not> isModelServerRoute ''/api/v2/custom/foo''"
    by (simp_all add: isModelServerRoute_def routeMatch_def isVersionChar_def startsLineTerminator_def
        STANDARD_ROUTES_def Let_def)
  then show ?thesis
    by (simp add: install_def installRouter_def middlewareRouter_def
        forwardToUpstreamOf_def handledRoutes_def stripTrailingSlashes_def Let_def)
qed

text \<open>
  C10. Membership in the backstop set is equality of strings, and the registered paths
  have no slash at their end: for every path in the backstop set, the path with one more
  slash at its end is not in the set, and a request for it that is not an upgrade is
  forwarded to Upstream.
\<close>

theorem trailing_slash_forwarded:
  "h \<in> install routers {} \<longrightarrow>
     h @ ''/'' \<notin> install routers {} \<and>
     (\<not> upgrade req \<and> path req = h @ ''/'' \<longrightarrow>
        forward (install routers {}) req
          = Forwarded (Relay (url req) (toUpperCase (httpMethod req)) (body req)))"
proof -
  have "x @ ''/'' \<notin> install routers {}" for x
    unfolding install_union[of routers "{}"]
    using strip_no_trailing_slash[of _ x] by (fastforce simp: handledRoutes_def)
  then show ?thesis by (simp add: forward_def shouldBackstop_def)
qed

theorem trailing_slash_forwarded_witness:
  "''/api/v2/foo'' \<in> install [fooRouter] {}
   \<and> ''/api/v2/foo/'' \<notin> install [fooRouter] {}
   \<and> forward (install [fooRouter] {}) (getRequest ''/api/v2/foo/'')
       = Forwarded (Relay ''/api/v2/foo/'' ''GET'' [])
   \<and> forward (install [fooRouter] {}) (getRequest ''/api/v2/foo'') = NotForwarded"
proof -
  have i: "install [fooRouter] {} = {''/api/v2/foo''}"
    by (simp add: install_def installRouter_def fooRouter_def forwardToUpstreamOf_def
        handledRoutes_def stripTrailingSlashes_def isModelServerRoute_def routeMatch_def
        isVersionChar_def startsLineTerminator_def STANDARD_ROUTES_def Let_def)
  then have m: "''/api/v2/foo'' \<in> install [fooRouter] {}" by simp
  have r: "\<not> upgrade (getRequest ''/api/v2/foo/'') \<and> path (getRequest ''/api/v2/foo/'') = ''/api/v2/foo'' @ ''/''"
    by (simp add: getRequest_def)
  from m r trailing_slash_forwarded[of "''/api/v2/foo''" "[fooRouter]" "getRequest ''/api/v2/foo/''"]
  have "''/api/v2/foo'' @ ''/'' \<notin> install [fooRouter] {}
        \<and> forward (install [fooRouter] {}) (getRequest ''/api/v2/foo/'')
            = Forwarded (Relay (url (getRequest ''/api/v2/foo/''))
                (toUpperCase (httpMethod (getRequest ''/api/v2/foo/''))) (body (getRequest ''/api/v2/foo/'')))"
    by blast
  moreover have "forward (install [fooRouter] {}) (getRequest ''/api/v2/foo'') = NotForwarded"
    by (simp add: i forward_def shouldBackstop_def getRequest_def)
  ultimately show ?thesis using m
    by (simp add: getRequest_def toUpperCase_def)
qed

end
